theory Spec2Isabelle
  imports Main
begin

section \<open>Errors\<close>

text \<open>
  Go errors are values.  \<open>errors.New\<close> and \<open>errors.Errorf\<close> give an \<open>Error\<close> with its
  message, \<open>errors.Wrap\<close> puts a message around an error, \<open>strconv\<close> reports a
  \<open>NumError\<close>, the driver reports the error kinds of the design, and a runtime panic
  (nil dereference, index out of range) is the value \<open>Panic\<close>.
\<close>

datatype numerr = ErrSyntax | ErrRange

datatype kind =
    NotFound | NotADirectory | IsADirectory | NameExists | CycleWouldForm
  | PermissionDenied | AuthFailed | InvariantViolation | IOError | AlreadyLocked
  | BadParameter

datatype error =
    Error string
  | Wrapped error string
  | NumError string numerr
  | Kind kind
  | Panic string

text \<open>\<open>errors.Wrap(err, msg)\<close> is nil when \<open>err\<close> is nil.\<close>

definition Wrap :: "error option \<Rightarrow> string \<Rightarrow> error option" where
  "Wrap err msg = (case err of None \<Rightarrow> None | Some e \<Rightarrow> Some (Wrapped e msg))"

text \<open>\<open>errors.WithStack(err)\<close> only records a stack trace, which is not modelled.\<close>

definition WithStack :: "error option \<Rightarrow> error option" where
  "WithStack err = err"

section \<open>The standard library: strconv.Atoi and the verb %d\<close>

definition isDigit :: "char \<Rightarrow> bool" where
  "isDigit c = (c \<in> set ''0123456789'')"

definition digitVal :: "char \<Rightarrow> int" where
  "digitVal c = int (length (takeWhile (\<lambda>d. d \<noteq> c) ''0123456789''))"

text \<open>
  \<open>strconv.ParseUint(s, 10, 64)\<close>: the digits are read from the left; a byte that is no
  digit is a syntax error, a value beyond \<open>2^64 - 1\<close> a range error, whichever comes
  first.
\<close>

fun parseDigits :: "int \<Rightarrow> string \<Rightarrow> numerr + int" where
  "parseDigits n [] = Inr n"
| "parseDigits n (c # cs) =
     (if isDigit c
      then (if 2 ^ 64 - 1 < 10 * n + digitVal c then Inl ErrRange
            else parseDigits (10 * n + digitVal c) cs)
      else Inl ErrSyntax)"

text \<open>
  \<open>strconv.Atoi(s)\<close> on a platform whose \<open>int\<close> has 64 bits: an optional sign, then at
  least one decimal digit, the value within \<open>[-2^63, 2^63 - 1]\<close>.
\<close>

definition Atoi :: "string \<Rightarrow> error + int" where
  "Atoi s =
     (let neg = (s \<noteq> [] \<and> hd s = CHR ''-'');
          ds = (if s \<noteq> [] \<and> (hd s = CHR ''-'' \<or> hd s = CHR ''+'') then tl s else s)
      in if ds = [] then Inl (NumError s ErrSyntax)
         else (case parseDigits 0 ds of
                 Inl e \<Rightarrow> Inl (NumError s e)
               | Inr un \<Rightarrow>
                   if neg then (if 2 ^ 63 < un then Inl (NumError s ErrRange) else Inr (- un))
                   else (if 2 ^ 63 \<le> un then Inl (NumError s ErrRange) else Inr un)))"

text \<open>Go's \<open>%\<close> on integers truncates towards zero: the result has the sign of \<open>a\<close>.\<close>

definition rem :: "int \<Rightarrow> int \<Rightarrow> int" where
  "rem a b = sgn a * (\<bar>a\<bar> mod \<bar>b\<bar>)"

text \<open>\<open>fmt.Sprintf("%d", n)\<close> for a natural number and for an integer.\<close>

fun natDigits :: "nat \<Rightarrow> string" where
  "natDigits n =
     (if n < 10 then [''0123456789'' ! n]
      else natDigits (n div 10) @ [''0123456789'' ! (n mod 10)])"

declare natDigits.simps [simp del]

definition Sprintf_d :: "int \<Rightarrow> string" where
  "Sprintf_d i = (if i < 0 then CHR ''-'' # natDigits (nat (- i)) else natDigits (nat i))"

section \<open>The command line shell (bin/elfs-cli/main.go)\<close>

subsection \<open>The packages the shell calls\<close>

type_synonym userId = int
type_synonym groupId = int
type_synonym direntId = string
type_synonym digest = string

text \<open>
  Modelled from the spec: the struct \<open>user.User\<close> is not among the sources; section 3
  gives a user an id, a name and a password digest.
\<close>

record user =
  UId :: userId
  UName :: string
  UPasswordHash :: digest

text \<open>
  Modelled from the spec: \<open>group.Permission\<close> and \<open>group.NewPermission\<close> are not among the
  sources; section 3 gives a permission as the pair (read, write).
\<close>

record permission =
  Read :: bool
  Write :: bool

definition NewPermission :: "bool \<Rightarrow> bool \<Rightarrow> permission" where
  "NewPermission read write = \<lparr>Read = read, Write = write\<rparr>"

type_synonym permissions = "groupId \<Rightarrow> permission option"

text \<open>
  The driver's operations are not among the sources, so the shell is modelled over any
  driver: a record of the operations the modelled commands call, each a function of the
  driver's state \<open>'fs\<close> that returns its Go results and the new state.
\<close>

record 'fs driver =
  CreateFilesystem :: "digest \<Rightarrow> 'fs \<Rightarrow> error option \<times> 'fs"
  UserAuth :: "string \<Rightarrow> digest \<Rightarrow> 'fs \<Rightarrow> (error + user) \<times> 'fs"
  Put :: "userId \<Rightarrow> string \<Rightarrow> string \<Rightarrow> permissions \<Rightarrow> direntId \<Rightarrow> 'fs \<Rightarrow> error option \<times> 'fs"
  MakeDir :: "userId \<Rightarrow> string \<Rightarrow> direntId \<Rightarrow> permissions \<Rightarrow> 'fs \<Rightarrow> (error + direntId) \<times> 'fs"
  RemoveFile :: "userId \<Rightarrow> direntId \<Rightarrow> 'fs \<Rightarrow> error option \<times> 'fs"
  RemoveDir :: "userId \<Rightarrow> direntId \<Rightarrow> 'fs \<Rightarrow> error option \<times> 'fs"
  PutGroupAccess :: "userId \<Rightarrow> direntId \<Rightarrow> groupId \<Rightarrow> permission \<Rightarrow> 'fs \<Rightarrow> error option \<times> 'fs"

text \<open>
  What the shell uses of other packages: \<open>util.ShaHash\<close>, \<open>dirent.ROOT_ID\<close>,
  \<open>shellquote.Split\<close>, and of the operating system \<open>os.Stat\<close>, \<open>os.Open\<close> (with the bytes
  the opened file yields), \<open>ioutil.ReadDir\<close>, \<open>filepath.Base\<close> and \<open>filepath.Join\<close>.  The
  external file system is read as it stands when the command starts.
\<close>

record fileInfo =
  Name :: string
  IsDir :: bool

record lib =
  ShaHash :: "string \<Rightarrow> digest"
  ROOT_ID :: direntId
  Split :: "string \<Rightarrow> error + string list"
  Stat :: "string \<Rightarrow> error + fileInfo"
  Open :: "string \<Rightarrow> error + string"
  ReadDir :: "string \<Rightarrow> error + fileInfo list"
  Base :: "string \<Rightarrow> string"
  Join :: "string \<Rightarrow> string \<Rightarrow> string"

subsection \<open>The state of the shell\<close>

text \<open>
  The calls on the driver, in the order they are made.  The list is a record of what
  the shell did; no command reads it.
\<close>

datatype driver_call =
    CallCreateFilesystem digest
  | CallUserAuth string digest
  | CallPut userId string string permissions direntId
  | CallMakeDir userId string direntId permissions
  | CallRemoveFile userId direntId
  | CallRemoveDir userId direntId
  | CallPutGroupAccess userId direntId groupId permission

text \<open>
  The global \<open>activeUser\<close> (nil until a login succeeds), the driver \<open>fsDriver\<close> points to,
  and the calls made on it.
\<close>

record 'fs session =
  activeUser :: "user option"
  fs :: 'fs
  calls :: "driver_call list"

definition invoke ::
  "driver_call \<Rightarrow> ('fs \<Rightarrow> 'r \<times> 'fs) \<Rightarrow> 'fs session \<Rightarrow> 'r \<times> 'fs session" where
  "invoke c f s = (case f (fs s) of (r, fs') \<Rightarrow> (r, s\<lparr>fs := fs', calls := calls s @ [c]\<rparr>))"

type_synonym 'fs commandFunction =
  "string \<Rightarrow> string list \<Rightarrow> 'fs session \<Rightarrow> error option \<times> 'fs session"

definition COMMAND_CREATE :: string where
  "COMMAND_CREATE = ''create''"

definition COMMAND_LOGIN :: string where
  "COMMAND_LOGIN = ''login''"

definition nilDereference :: error where
  "nilDereference = Panic ''invalid memory address or nil pointer dereference''"

subsection \<open>create and login\<close>

definition create :: "lib \<Rightarrow> 'fs driver \<Rightarrow> 'fs commandFunction" where
  "create L D command args s =
     (if length args \<noteq> 1
      then (Some (Error (''USAGE: '' @ command @ '' <root password>'')), s)
      else invoke (CallCreateFilesystem (ShaHash L (args ! 0)))
             (CreateFilesystem D (ShaHash L (args ! 0))) s)"

definition login :: "lib \<Rightarrow> 'fs driver \<Rightarrow> 'fs commandFunction" where
  "login L D command args s =
     (if length args \<noteq> 2
      then (Some (Error (''USAGE: '' @ command @ '' <username> <password>'')), s)
      else (case invoke (CallUserAuth (args ! 0) (ShaHash L (args ! 1)))
                   (UserAuth D (args ! 0) (ShaHash L (args ! 1))) s of
              (Inl err, s') \<Rightarrow> (Some (Wrapped err ''Failed to authenticate user.''), s')
            | (Inr authUser, s') \<Rightarrow> (None, s'\<lparr>activeUser := Some authUser\<rparr>)))"

subsection \<open>rm\<close>

definition remove :: "lib \<Rightarrow> 'fs driver \<Rightarrow> 'fs commandFunction" where
  "remove L D command args s =
     (if length args < 1 \<or> length args > 2 \<or> (length args = 2 \<and> args ! 0 \<noteq> ''-r'')
      then (Some (Error (''USAGE: '' @ command @ '' [-r] <dirent id>'')), s)
      else
        (let isFile = (length args \<noteq> 2);
             args' = (if length args = 2 then drop 1 args else args);
             direntId = args' ! 0
         in case activeUser s of
              None \<Rightarrow> (Some nilDereference, s)
            | Some u \<Rightarrow>
                (case (if isFile
                       then invoke (CallRemoveFile (UId u) direntId)
                              (RemoveFile D (UId u) direntId) s
                       else invoke (CallRemoveDir (UId u) direntId)
                              (RemoveDir D (UId u) direntId) s) of
                   (err, s') \<Rightarrow> (WithStack err, s'))))"

subsection \<open>permadd\<close>

definition permissionAdd :: "lib \<Rightarrow> 'fs driver \<Rightarrow> 'fs commandFunction" where
  "permissionAdd L D command args s =
     (if length args \<noteq> 3
      then (Some (Error (''USAGE: '' @ command @ '' <dirent id> <group id> <2|4|6>'')), s)
      else
        (let direntId = args ! 0 in
         case Atoi (args ! 1) of
           Inl err \<Rightarrow> (Some (Wrapped err (args ! 1)), s)
         | Inr groupId \<Rightarrow>
             (case Atoi (args ! 2) of
                Inl err \<Rightarrow> (Some (Wrapped err (args ! 2)), s)
              | Inr permission \<Rightarrow>
                  if permission \<noteq> 2 \<and> permission \<noteq> 4 \<and> permission \<noteq> 6
                  then (Some (Error (''Bad permission number: '' @ Sprintf_d permission
                                 @ ''. Use UNIX-style for read and write'')), s)
                  else
                    (let read = (rem permission 4 = 0);
                         write = (rem permission 2 = 0)
                     in case activeUser s of
                          None \<Rightarrow> (Some nilDereference, s)
                        | Some u \<Rightarrow>
                            (case invoke (CallPutGroupAccess (UId u) direntId groupId
                                            (NewPermission read write))
                                    (PutGroupAccess D (UId u) direntId groupId
                                       (NewPermission read write)) s of
                               (err, s') \<Rightarrow> (WithStack err, s'))))))"

subsection \<open>import\<close>

definition importFileInternal ::
  "lib \<Rightarrow> 'fs driver \<Rightarrow> string \<Rightarrow> direntId \<Rightarrow> 'fs session \<Rightarrow> error option \<times> 'fs session" where
  "importFileInternal L D path parent s =
     (case Open L path of
        Inl err \<Rightarrow> (Some (Wrapped err path), s)
      | Inr fileReader \<Rightarrow>
          (case activeUser s of
             None \<Rightarrow> (Some nilDereference, s)
           | Some u \<Rightarrow>
               (case invoke (CallPut (UId u) (Base L path) fileReader Map.empty parent)
                       (Put D (UId u) (Base L path) fileReader Map.empty parent) s of
                  (err, s') \<Rightarrow> (Wrap err path, s'))))"

text \<open>
  The loop over the children of a directory; \<open>imp\<close> is the recursive call.  The result
  \<open>None\<close> says that the call did not return within the depth allowed.
\<close>

fun importChildren ::
  "(string \<Rightarrow> direntId \<Rightarrow> 's \<Rightarrow> (error option \<times> 's) option) \<Rightarrow> lib \<Rightarrow> string \<Rightarrow>
   fileInfo list \<Rightarrow> direntId \<Rightarrow> 's \<Rightarrow> (error option \<times> 's) option" where
  "importChildren imp L path [] newId s = Some (None, s)"
| "importChildren imp L path (child # children) newId s =
     (case imp (Join L path (Name child)) newId s of
        None \<Rightarrow> None
      | Some (Some err, s') \<Rightarrow> Some (Some (Wrapped err path), s')
      | Some (None, s') \<Rightarrow> importChildren imp L path children newId s')"

text \<open>
  \<open>recursiveImport\<close> calls itself on every child of a directory.  Nothing in the code
  bounds the depth, so the model takes the number of nested calls allowed as its first
  argument and returns \<open>None\<close> when they are used up.
\<close>

primrec recursiveImport ::
  "nat \<Rightarrow> lib \<Rightarrow> 'fs driver \<Rightarrow> string \<Rightarrow> direntId \<Rightarrow> 'fs session \<Rightarrow>
   (error option \<times> 'fs session) option" where
  "recursiveImport 0 L D path parent s = None"
| "recursiveImport (Suc n) L D path parent s =
     (case Stat L path of
        Inl err \<Rightarrow> Some (Some (Wrapped err path), s)
      | Inr fileInfo \<Rightarrow>
          if \<not> IsDir fileInfo
          then (case importFileInternal L D path parent s of
                  (err, s') \<Rightarrow> Some (WithStack err, s'))
          else
            (case activeUser s of
               None \<Rightarrow> Some (Some nilDereference, s)
             | Some u \<Rightarrow>
                 (case invoke (CallMakeDir (UId u) (Name fileInfo) parent Map.empty)
                         (MakeDir D (UId u) (Name fileInfo) parent Map.empty) s of
                    (Inl err, s') \<Rightarrow> Some (Some (Wrapped err path), s')
                  | (Inr newId, s') \<Rightarrow>
                      (case ReadDir L path of
                         Inl err \<Rightarrow> Some (Some (Wrapped err path), s')
                       | Inr children \<Rightarrow>
                           importChildren (recursiveImport n L D) L path children newId s'))))"

definition importFile ::
  "nat \<Rightarrow> lib \<Rightarrow> 'fs driver \<Rightarrow> string \<Rightarrow> string list \<Rightarrow> 'fs session \<Rightarrow>
   (error option \<times> 'fs session) option" where
  "importFile n L D command args s =
     (if length args < 1 \<or> length args > 2
      then Some (Some (Error (''USAGE: '' @ command @ '' <external file> [parent id]'')), s)
      else
        (let localPath = args ! 0;
             parent = (if length args = 2 then args ! 1 else ROOT_ID L)
         in case recursiveImport n L D localPath parent s of
              None \<Rightarrow> None
            | Some (err, s') \<Rightarrow> Some (WithStack err, s')))"

subsection \<open>Dispatch\<close>

text \<open>
  \<open>processCommand\<close> over the table \<open>commands\<close> that \<open>init\<close> fills.  \<open>args[0]\<close> panics on an
  empty list of words.
\<close>

definition processCommand ::
  "lib \<Rightarrow> (string \<Rightarrow> 'fs commandFunction option) \<Rightarrow> string \<Rightarrow> 'fs session \<Rightarrow>
   error option \<times> 'fs session" where
  "processCommand L commands command s =
     (case Split L command of
        Inl err \<Rightarrow> (Some (Wrapped err ''Failed to split command.''), s)
      | Inr words \<Rightarrow>
          (case words of
             [] \<Rightarrow> (Some (Panic ''index out of range''), s)
           | operation # args \<Rightarrow>
               if activeUser s = None \<and> operation \<noteq> COMMAND_LOGIN \<and> operation \<noteq> COMMAND_CREATE
               then (Some (Error ''Need to login.''), s)
               else
                 (case commands operation of
                    None \<Rightarrow> (Some (Error (''Unknown operation: '' @ operation)), s)
                  | Some commandFunc \<Rightarrow>
                      (case commandFunc operation args s of
                         (err, s') \<Rightarrow> (Wrap err ''Failed to run command'', s')))))"

section \<open>The local disk\<close>

text \<open>
  The local connector works on a directory of the local disk.  An absolute, cleaned path
  is the list of its components (\<open>/a/b\<close> is \<open>[''a'', ''b'']\<close>, the root is \<open>[]\<close>), so
  \<open>filepath.Join(p, name)\<close> is \<open>p @ [name]\<close>.  A disk maps a path to what is there.  Path
  resolution walks down from the root, which is always a directory: an entry of the map
  below something that is no directory is not on the disk.
\<close>

type_synonym abspath = "string list"

datatype node = DirNode | FileNode string

type_synonym disk = "abspath \<Rightarrow> node option"

datatype errno = ENOENT | ENOTDIR | EISDIR | EEXIST | ENOTEMPTY

function osStat :: "disk \<Rightarrow> abspath \<Rightarrow> errno + node" where
  "osStat d p =
     (if p = [] then Inr DirNode
      else (case osStat d (butlast p) of
              Inl e \<Rightarrow> Inl e
            | Inr (FileNode x) \<Rightarrow> Inl ENOTDIR
            | Inr DirNode \<Rightarrow> (case d p of None \<Rightarrow> Inl ENOENT | Some n \<Rightarrow> Inr n)))"
  by pat_completeness auto
termination
  by (relation "measure (\<lambda>(d, p). length p)") auto

declare osStat.simps [simp del]

text \<open>\<open>os.Open\<close> for reading opens a file or a directory; reading a directory fails.\<close>

definition osOpen :: "abspath \<Rightarrow> disk \<Rightarrow> errno + node" where
  "osOpen p d = osStat d p"

definition ReadAll :: "node \<Rightarrow> errno + string" where
  "ReadAll f = (case f of FileNode x \<Rightarrow> Inr x | DirNode \<Rightarrow> Inl EISDIR)"

definition IsNotExist :: "errno \<Rightarrow> bool" where
  "IsNotExist e = (e = ENOENT)"

text \<open>\<open>os.Mkdir\<close> makes one new, empty directory in a directory that exists.\<close>

definition below :: "abspath \<Rightarrow> abspath \<Rightarrow> bool" where
  "below p q = (length p < length q \<and> take (length p) q = p)"

definition osMkdir :: "abspath \<Rightarrow> disk \<Rightarrow> errno option \<times> disk" where
  "osMkdir p d =
     (if p = [] then (Some EEXIST, d)
      else (case osStat d (butlast p) of
              Inl e \<Rightarrow> (Some e, d)
            | Inr (FileNode x) \<Rightarrow> (Some ENOTDIR, d)
            | Inr DirNode \<Rightarrow>
                (case d p of
                   Some n \<Rightarrow> (Some EEXIST, d)
                 | None \<Rightarrow>
                     (None, (\<lambda>q. if q = p then Some DirNode
                                  else if below p q then None else d q)))))"

text \<open>
  \<open>os.MkdirAll\<close>: nothing to do for a directory that exists, an error for a file;
  otherwise the parent first (the root needs no call), then the directory itself, and a
  failure of that \<open>Mkdir\<close> is forgiven when the directory is there after all.
\<close>

function osMkdirAll :: "abspath \<Rightarrow> disk \<Rightarrow> errno option \<times> disk" where
  "osMkdirAll p d =
     (case osStat d p of
        Inr DirNode \<Rightarrow> (None, d)
      | Inr (FileNode x) \<Rightarrow> (Some ENOTDIR, d)
      | Inl e \<Rightarrow>
          (case (if 1 < length p then osMkdirAll (butlast p) d else (None, d)) of
             (Some err, d') \<Rightarrow> (Some err, d')
           | (None, d') \<Rightarrow>
               (case osMkdir p d' of
                  (None, d'') \<Rightarrow> (None, d'')
                | (Some err, d'') \<Rightarrow>
                    (case osStat d'' p of
                       Inr DirNode \<Rightarrow> (None, d'')
                     | Inr (FileNode x) \<Rightarrow> (Some err, d'')
                     | Inl e' \<Rightarrow> (Some err, d'')))))"
  by pat_completeness auto
termination
  by (relation "measure (\<lambda>(p, d). length p)") auto

declare osMkdirAll.simps [simp del]

text \<open>\<open>ioutil.WriteFile\<close> creates the file or replaces its content.\<close>

definition WriteFile :: "abspath \<Rightarrow> string \<Rightarrow> disk \<Rightarrow> errno option \<times> disk" where
  "WriteFile p content d =
     (if p = [] then (Some EISDIR, d)
      else (case osStat d (butlast p) of
              Inl e \<Rightarrow> (Some e, d)
            | Inr (FileNode x) \<Rightarrow> (Some ENOTDIR, d)
            | Inr DirNode \<Rightarrow>
                (case d p of
                   Some DirNode \<Rightarrow> (Some EISDIR, d)
                 | Some (FileNode x) \<Rightarrow> (None, d(p \<mapsto> FileNode content))
                 | None \<Rightarrow> (None, d(p \<mapsto> FileNode content)))))"

text \<open>\<open>os.Remove\<close> removes a file or an empty directory (never the root).\<close>

definition hasEntries :: "disk \<Rightarrow> abspath \<Rightarrow> bool" where
  "hasEntries d p = (\<exists>name. d (p @ [name]) \<noteq> None)"

definition osRemove :: "abspath \<Rightarrow> disk \<Rightarrow> errno option \<times> disk" where
  "osRemove p d =
     (case osStat d p of
        Inl e \<Rightarrow> (Some e, d)
      | Inr (FileNode x) \<Rightarrow> (None, d(p := None))
      | Inr DirNode \<Rightarrow>
          if p = [] \<or> hasEntries d p then (Some ENOTEMPTY, d) else (None, d(p := None)))"

text \<open>An error of the operating system as a Go error: the operation, the path, the cause.\<close>

definition pathString :: "abspath \<Rightarrow> string" where
  "pathString p = (if p = [] then ''/'' else concat (map (\<lambda>name. CHR ''/'' # name) p))"

definition errnoString :: "errno \<Rightarrow> string" where
  "errnoString e =
     (case e of
        ENOENT \<Rightarrow> ''no such file or directory''
      | ENOTDIR \<Rightarrow> ''not a directory''
      | EISDIR \<Rightarrow> ''is a directory''
      | EEXIST \<Rightarrow> ''file exists''
      | ENOTEMPTY \<Rightarrow> ''directory not empty'')"

definition PathError :: "string \<Rightarrow> abspath \<Rightarrow> errno \<Rightarrow> error" where
  "PathError operation p e =
     Error (operation @ '' '' @ pathString p @ '': '' @ errnoString e)"

definition PathErrorOpt :: "string \<Rightarrow> abspath \<Rightarrow> errno option \<Rightarrow> error option" where
  "PathErrorOpt operation p err =
     (case err of None \<Rightarrow> None | Some e \<Rightarrow> Some (PathError operation p e))"

section \<open>The local connector (connector/local/connector.go)\<close>

text \<open>
  Modelled from the spec: the constants of the package \<open>connector\<close> and the method
  \<open>getLockPath\<close> are not among the sources; section 6 gives the layout \<open>admin/lock\<close>,
  \<open>data/<prefix>/<DirentId>\<close> with a prefix of one character.
\<close>

definition FS_SYS_DIR_ADMIN :: string where
  "FS_SYS_DIR_ADMIN = ''admin''"

definition FS_SYS_DIR_DATA :: string where
  "FS_SYS_DIR_DATA = ''data''"

definition DATA_GROUP_PREFIX_LEN :: int where
  "DATA_GROUP_PREFIX_LEN = 1"

definition LOCK_FILENAME :: string where
  "LOCK_FILENAME = ''lock''"

record LocalConnector =
  path :: abspath

definition getLockPath :: "LocalConnector \<Rightarrow> abspath" where
  "getLockPath this = path this @ [FS_SYS_DIR_ADMIN, LOCK_FILENAME]"

text \<open>
  What the process holds and sees: the table \<open>activeConnections\<close> of the package, the
  disk, and the process id that \<open>os.Getpid\<close> returns.  The mutex
  \<open>activeConnectionsLock\<close> makes the calls that take it run one after the other, which is
  how they are modelled.
\<close>

record world =
  activeConnections :: "abspath \<Rightarrow> bool option"
  disk :: disk
  pid :: nat

definition alreadyOwned :: "abspath \<Rightarrow> string \<Rightarrow> error" where
  "alreadyOwned p owner =
     Error (''Local filesystem (at '' @ pathString p @ '') already owned by ['' @ owner @ ''].''
            @ '' Ensure that the processes is dead and remove the lock or force the connector.'')"

text \<open>The last statement of \<open>lock\<close>: the process id goes into the lock file.\<close>

definition writeLock :: "LocalConnector \<Rightarrow> world \<Rightarrow> error option \<times> world" where
  "writeLock this w =
     (let lockPath = getLockPath this
      in case WriteFile lockPath (Sprintf_d (int (pid w))) (disk w) of
           (err, d') \<Rightarrow>
             (Wrap (PathErrorOpt ''open'' lockPath err) (pathString lockPath),
              w\<lparr>disk := d'\<rparr>))"

definition lock :: "LocalConnector \<Rightarrow> bool \<Rightarrow> world \<Rightarrow> error option \<times> world" where
  "lock this force w =
     (let lockPath = getLockPath this
      in case osOpen lockPath (disk w) of
           Inl err \<Rightarrow>
             if \<not> IsNotExist err
             then (Some (Wrapped (PathError ''open'' lockPath err) (pathString lockPath)), w)
             else writeLock this w
         | Inr inFile \<Rightarrow>
             if \<not> force
             then (case ReadAll inFile of
                     Inl err \<Rightarrow>
                       (Some (Wrapped (PathError ''read'' lockPath err) (pathString lockPath)), w)
                   | Inr owner \<Rightarrow> (Some (alreadyOwned (path this) owner), w))
             else writeLock this w)"

definition unlock :: "LocalConnector \<Rightarrow> world \<Rightarrow> error option \<times> world" where
  "unlock this w =
     (let lockPath = getLockPath this
      in case osRemove lockPath (disk w) of
           (err, d') \<Rightarrow>
             (Wrap (PathErrorOpt ''remove'' lockPath err) (pathString lockPath),
              w\<lparr>disk := d'\<rparr>))"

text \<open>
  \<open>NewLocalConnector\<close>; \<open>Abs\<close> is \<open>filepath.Abs\<close>, which depends on the working directory.
  The result of the first \<open>os.MkdirAll\<close> is dropped, as in the code.
\<close>

definition NewLocalConnector ::
  "(string \<Rightarrow> error + abspath) \<Rightarrow> string \<Rightarrow> bool \<Rightarrow> world \<Rightarrow>
   (error + LocalConnector) \<times> world" where
  "NewLocalConnector Abs p force w =
     (case Abs p of
        Inl err \<Rightarrow>
          (Inl (Wrapped err ''Failed to create absolute path for local connector.''), w)
      | Inr ap \<Rightarrow>
          (case activeConnections w ap of
             Some ok \<Rightarrow>
               (Inl (Error (''Cannot create two connections to the same storage: ''
                            @ pathString ap)), w)
           | None \<Rightarrow>
               (let w1 = w\<lparr>disk := snd (osMkdirAll (ap @ [FS_SYS_DIR_ADMIN]) (disk w))\<rparr>;
                    connector = \<lparr>path = ap\<rparr>
                in case lock connector force w1 of
                     (Some err, w2) \<Rightarrow> (Inl (Wrapped err (pathString ap)), w2)
                   | (None, w2) \<Rightarrow> (Inr connector, w2))))"

text \<open>The loop of \<open>PrepareStorage\<close> over the directories, up to the first error.\<close>

fun mkdirEach :: "abspath list \<Rightarrow> disk \<Rightarrow> error option \<times> disk" where
  "mkdirEach [] d = (None, d)"
| "mkdirEach (dir # dirs) d =
     (case osMkdirAll dir d of
        (Some err, d') \<Rightarrow> (Some (PathError ''mkdir'' dir err), d')
      | (None, d') \<Rightarrow> mkdirEach dirs d')"

text \<open>
  The directories \<open>PrepareStorage\<close> makes; \<open>RANDOM_CHARS\<close> is the constant of the package
  \<open>util\<close>, which is not among the sources.
\<close>

definition storageDirs :: "string \<Rightarrow> LocalConnector \<Rightarrow> abspath list" where
  "storageDirs RANDOM_CHARS this =
     [path this, path this @ [FS_SYS_DIR_ADMIN], path this @ [FS_SYS_DIR_DATA]]
     @ map (\<lambda>prefix. path this @ [FS_SYS_DIR_DATA, [prefix]]) RANDOM_CHARS"

definition PrepareStorage :: "string \<Rightarrow> LocalConnector \<Rightarrow> world \<Rightarrow> error option \<times> world" where
  "PrepareStorage RANDOM_CHARS this w =
     (if DATA_GROUP_PREFIX_LEN \<noteq> 1
      then (Some (Error (''Expected data prefix to be 1, not ''
                         @ Sprintf_d DATA_GROUP_PREFIX_LEN @ ''.'')), w)
      else (case mkdirEach (storageDirs RANDOM_CHARS this) (disk w) of
              (err, d') \<Rightarrow> (WithStack err, w\<lparr>disk := d'\<rparr>)))"

definition Close :: "LocalConnector \<Rightarrow> world \<Rightarrow> error option \<times> world" where
  "Close this w =
     (let w1 = w\<lparr>activeConnections := (activeConnections w)(path this \<mapsto> False)\<rparr>
      in case unlock this w1 of (err, w2) \<Rightarrow> (WithStack err, w2))"

text \<open>
  What can happen in the process and around it after a call: connectors are made and
  closed, storage is prepared, and anything else (this or another process) changes the
  disk.  Nothing but \<open>NewLocalConnector\<close> and \<open>Close\<close> reads or writes \<open>activeConnections\<close>.
\<close>

datatype event =
    DoNew string bool
  | DoClose LocalConnector
  | DoPrepare LocalConnector
  | DoDisk "disk \<Rightarrow> disk"

fun happen ::
  "(string \<Rightarrow> error + abspath) \<Rightarrow> string \<Rightarrow> event \<Rightarrow> world \<Rightarrow> world" where
  "happen Abs chars (DoNew p force) w = snd (NewLocalConnector Abs p force w)"
| "happen Abs chars (DoClose c) w = snd (Close c w)"
| "happen Abs chars (DoPrepare c) w = snd (PrepareStorage chars c w)"
| "happen Abs chars (DoDisk f) w = w\<lparr>disk := f (disk w)\<rparr>"

fun run ::
  "(string \<Rightarrow> error + abspath) \<Rightarrow> string \<Rightarrow> event list \<Rightarrow> world \<Rightarrow> world" where
  "run Abs chars [] w = w"
| "run Abs chars (e # es) w = run Abs chars es (happen Abs chars e w)"

section \<open>Creating a filesystem and authenticating (driver)\<close>

text \<open>
  The tables of the struct \<open>Driver\<close> (driver/driver.go), and with them the names of the
  metadata blobs that the connector holds on the backend.  The cipher, the IVs and the
  cache are left out.

  Modelled from the spec: the structs \<open>dirent.Dirent\<close> and \<open>group.Group\<close> are not among the
  sources; section 3 gives their attributes (timestamps, MD5 and IV are left out).
\<close>

record dirent =
  DId :: direntId
  DName :: string
  IsFile :: bool
  Parent :: direntId
  Owner :: userId
  Size :: nat
  GroupPermissions :: "(groupId \<times> permission) list"

record group =
  GId :: groupId
  GName :: string
  Users :: "userId list"
  Admins :: "userId list"

record Driver =
  fatVersion :: int
  fat :: "(direntId \<times> dirent) list"
  usersVersion :: int
  users :: "(userId \<times> user) list"
  groupsVersion :: int
  groups :: "(groupId \<times> group) list"
  dirs :: "(direntId \<times> dirent list) list"
  metadata :: "string list"





section \<open>Example values\<close>

text \<open>
  A small library, external file system, driver and disk on which the statements below
  are evaluated: the directory \<open>photos\<close> holds the files \<open>a.txt\<close> and \<open>b.txt\<close>; the driver
  counts the directories it has made and names each after the count.
\<close>

definition exampleLib :: lib where
  "exampleLib =
     \<lparr>ShaHash = (\<lambda>password. ''sha256:'' @ password),
      ROOT_ID = ''ROOT'',
      Split = (\<lambda>command.
         if command = ''rm -r x'' then Inr [''rm'', ''-r'', ''x'']
         else if command = ''login root pw'' then Inr [''login'', ''root'', ''pw'']
         else Inl (Error ''Unterminated quoted string'')),
      Stat = (\<lambda>p.
         if p = ''photos'' then Inr \<lparr>Name = ''photos'', IsDir = True\<rparr>
         else if p = ''photos/a.txt'' then Inr \<lparr>Name = ''a.txt'', IsDir = False\<rparr>
         else if p = ''photos/b.txt'' then Inr \<lparr>Name = ''b.txt'', IsDir = False\<rparr>
         else Inl (Error ''no such file or directory'')),
      Open = (\<lambda>p.
         if p = ''photos/a.txt'' then Inr ''alpha''
         else if p = ''photos/b.txt'' then Inr ''beta''
         else Inl (Error ''no such file or directory'')),
      ReadDir = (\<lambda>p.
         if p = ''photos''
         then Inr [\<lparr>Name = ''a.txt'', IsDir = False\<rparr>, \<lparr>Name = ''b.txt'', IsDir = False\<rparr>]
         else Inl (Error ''not a directory'')),
      Base = (\<lambda>p. rev (takeWhile (\<lambda>c. c \<noteq> CHR ''/'') (rev p))),
      Join = (\<lambda>p name. p @ ''/'' @ name)\<rparr>"

definition exampleDriver :: "nat driver" where
  "exampleDriver =
     \<lparr>CreateFilesystem = (\<lambda>hash n. (None, n)),
      UserAuth = (\<lambda>name hash n.
         (if name = ''root'' \<and> hash = ''sha256:pw''
          then Inr \<lparr>UId = 0, UName = ''root'', UPasswordHash = hash\<rparr>
          else Inl (Kind AuthFailed), n)),
      Put = (\<lambda>u name content perms parent n. (None, n)),
      MakeDir = (\<lambda>u name parent perms n. (Inr (''dir'' @ natDigits n), Suc n)),
      RemoveFile = (\<lambda>u i n. (None, n)),
      RemoveDir = (\<lambda>u i n. (None, n)),
      PutGroupAccess = (\<lambda>u i g perm n. (None, n))\<rparr>"

definition exampleUser :: user where
  "exampleUser = \<lparr>UId = 7, UName = ''eve'', UPasswordHash = ''sha256:x''\<rparr>"

definition exampleSession :: "nat session" where
  "exampleSession = \<lparr>activeUser = Some exampleUser, fs = 0, calls = []\<rparr>"

definition exampleAbs :: "string \<Rightarrow> error + abspath" where
  "exampleAbs p = (if p = ''/fs'' \<or> p = ''fs'' then Inr [''fs''] else Inl (Error ''getwd''))"

definition exampleWorld :: world where
  "exampleWorld = \<lparr>activeConnections = Map.empty, disk = Map.empty, pid = 4242\<rparr>"

text \<open>
  A session in which nobody is logged in, the tables of a new driver on a backend without
  metadata blobs, and a driver whose \<open>CreateFilesystem\<close> and \<open>UserAuth\<close> are the ones
  modelled from the design.
\<close>

definition loggedOut :: "'fs \<Rightarrow> 'fs session" where
  "loggedOut x = \<lparr>activeUser = None, fs = x, calls = []\<rparr>"




section \<open>What the shell does\<close>

subsection \<open>permadd\<close>

lemma Atoi_2: "Atoi ''2'' = Inr 2"
  by (simp add: Atoi_def isDigit_def digitVal_def)

lemma Atoi_4: "Atoi ''4'' = Inr 4"
  by (simp add: Atoi_def isDigit_def digitVal_def)

lemma Atoi_6: "Atoi ''6'' = Inr 6"
  by (simp add: Atoi_def isDigit_def digitVal_def)

text \<open>
  Claim C1: for a permission number that permadd accepts, the permission passed to
  \<open>PutGroupAccess\<close> encodes 4 as read only, 2 as write only and 6 as read and write.

  What the code passes, read off the recorded call: for 2 it is (read = False,
  write = True), as the claim says.  For 4 it is (read = True, write = True), because
  \<open>4 % 2 = 0\<close>, where the claim says write = False; for 6 it is (read = False,
  write = True), because \<open>6 % 4 = 2\<close>, where the claim says read = True.  The usage
  message of the command asks for the UNIX numbers, so the code misses its own intent.
\<close>

theorem permissionAdd_encoding:
  assumes "activeUser s = Some u" and "Atoi g = Inr groupId"
  shows "calls (snd (permissionAdd L D command [d, g, ''2''] s))
           = calls s @ [CallPutGroupAccess (UId u) d groupId \<lparr>Read = False, Write = True\<rparr>]
       \<and> calls (snd (permissionAdd L D command [d, g, ''4''] s))
           = calls s @ [CallPutGroupAccess (UId u) d groupId \<lparr>Read = True, Write = True\<rparr>]
       \<and> calls (snd (permissionAdd L D command [d, g, ''6''] s))
           = calls s @ [CallPutGroupAccess (UId u) d groupId \<lparr>Read = False, Write = True\<rparr>]"
  using assms
  by (simp add: permissionAdd_def Atoi_2 Atoi_4 Atoi_6 rem_def NewPermission_def invoke_def
      split: prod.splits)

text \<open>
  The statement at the user \<open>eve\<close> (id 7), the dirent \<open>f\<close> and the group 3.
\<close>

theorem permissionAdd_encoding_witness:
  "calls (snd (permissionAdd exampleLib exampleDriver ''permadd'' [''f'', ''3'', ''4''] exampleSession))
     = [CallPutGroupAccess 7 ''f'' 3 \<lparr>Read = True, Write = True\<rparr>]
   \<and> calls (snd (permissionAdd exampleLib exampleDriver ''permadd'' [''f'', ''3'', ''6''] exampleSession))
     = [CallPutGroupAccess 7 ''f'' 3 \<lparr>Read = False, Write = True\<rparr>]"
proof -
  have u: "activeUser exampleSession = Some exampleUser" by (simp add: exampleSession_def)
  have g: "Atoi ''3'' = Inr 3" by (simp add: Atoi_def isDigit_def digitVal_def)
  show ?thesis
    using permissionAdd_encoding [OF u g, of exampleLib exampleDriver "''permadd''" "''f''"]
    by (simp add: exampleSession_def exampleUser_def)
qed

text \<open>
  Claim C4: for every permission number other than 2, 4 and 6, permadd returns the
  bad-parameter error without calling \<open>PutGroupAccess\<close>, so nothing changes.

  With three arguments of which the third reads as a number \<open>p\<close> other than 2, 4, 6,
  the command returns an error and the session it was given: the driver's state and the
  list of calls are the same, whatever the driver.  When the group id reads as a number
  too, the error is the message \<open>Bad permission number\<close> with \<open>p\<close>.
\<close>

theorem permissionAdd_bad_number:
  assumes "length args = 3" and "Atoi (args ! 2) = Inr p" and "p \<noteq> 2" and "p \<noteq> 4" and "p \<noteq> 6"
  shows "(\<exists>e. permissionAdd L D command args s = (Some e, s))
       \<and> (\<forall>groupId. Atoi (args ! 1) = Inr groupId \<longrightarrow>
            permissionAdd L D command args s
              = (Some (Error (''Bad permission number: '' @ Sprintf_d p
                               @ ''. Use UNIX-style for read and write'')), s))"
proof (cases "Atoi (args ! 1)")
  case (Inl e)
  with assms show ?thesis by (simp add: permissionAdd_def)
next
  case (Inr groupId)
  with assms show ?thesis by (simp add: permissionAdd_def)
qed

text \<open>
  The statement at the arguments \<open>f 3 7\<close>.
\<close>

theorem permissionAdd_bad_number_witness:
  "permissionAdd exampleLib exampleDriver ''permadd'' [''f'', ''3'', ''7''] exampleSession
     = (Some (Error ''Bad permission number: 7. Use UNIX-style for read and write''),
        exampleSession)"
proof -
  have g: "Atoi ([''f'', ''3'', ''7''] ! 1) = Inr 3" by (simp add: Atoi_def isDigit_def digitVal_def)
  have p: "Atoi ([''f'', ''3'', ''7''] ! 2) = Inr 7" by (simp add: Atoi_def isDigit_def digitVal_def)
  have s: "Sprintf_d 7 = ''7''" by (simp add: Sprintf_d_def natDigits.simps)
  show ?thesis
    using permissionAdd_bad_number [of "[''f'', ''3'', ''7'']" 7 exampleLib exampleDriver
        "''permadd''" exampleSession] g p s
    by simp
qed

subsection \<open>rm\<close>

text \<open>
  Claim C6: rm with one argument removes that dirent as a file (\<open>RemoveFile\<close>); rm
  with \<open>-r\<close> and an id removes it as a directory (\<open>RemoveDir\<close>); every other shape of
  the arguments, also two arguments of which the first is not \<open>-r\<close>, is a usage error
  and no operation of the driver is called.

  For a logged-in user the first two shapes are exactly one call of the driver, with the
  user's id and the dirent id, whose error is returned.  Every other shape returns the
  usage message and the session unchanged.
\<close>

theorem remove_shapes:
  "(activeUser s = Some u \<longrightarrow>
      remove L D command [direntId] s
        = invoke (CallRemoveFile (UId u) direntId) (RemoveFile D (UId u) direntId) s
    \<and> remove L D command [''-r'', direntId] s
        = invoke (CallRemoveDir (UId u) direntId) (RemoveDir D (UId u) direntId) s)
   \<and> (args = [] \<or> 2 < length args \<or> (length args = 2 \<and> args ! 0 \<noteq> ''-r'') \<longrightarrow>
      remove L D command args s
        = (Some (Error (''USAGE: '' @ command @ '' [-r] <dirent id>'')), s))"
  by (auto simp: remove_def WithStack_def split: prod.splits)

text \<open>
  The three shapes at the user \<open>eve\<close>: a file, a directory, and two ids.
\<close>

theorem remove_shapes_witness:
  "remove exampleLib exampleDriver ''rm'' [''x''] exampleSession
     = (None, exampleSession\<lparr>calls := [CallRemoveFile 7 ''x'']\<rparr>)
   \<and> remove exampleLib exampleDriver ''rm'' [''-r'', ''x''] exampleSession
     = (None, exampleSession\<lparr>calls := [CallRemoveDir 7 ''x'']\<rparr>)
   \<and> remove exampleLib exampleDriver ''rm'' [''x'', ''y''] exampleSession
     = (Some (Error ''USAGE: rm [-r] <dirent id>''), exampleSession)"
  using remove_shapes [of exampleSession exampleUser exampleLib exampleDriver "''rm''" "''x''"
      "[''x'', ''y'']"]
  by (simp add: exampleSession_def exampleUser_def exampleDriver_def invoke_def)

subsection \<open>Dispatch\<close>

text \<open>
  Claim C9: while no user is logged in, every command other than login and create fails
  with the need-to-login error before any operation of the driver is called, so nothing
  changes; after a successful login the commands are dispatched.

  For a command line that splits into an operation and its arguments: with nobody
  logged in and an operation other than \<open>login\<close> and \<open>create\<close>, \<open>processCommand\<close> returns
  \<open>Need to login.\<close> and the session as it was, whatever the table of commands holds.
  With a user logged in, or for \<open>login\<close> and \<open>create\<close>, the function the table holds for
  the operation is run and its error wrapped.  A login that the driver authenticates
  makes the authenticated user the active one.  (The main loop ends on a line that
  starts with \<open>quit\<close> before \<open>processCommand\<close> sees it.)
\<close>

theorem processCommand_login_gate:
  assumes "Split L command = Inr (operation # args)"
  shows "(activeUser s = None \<and> operation \<noteq> ''login'' \<and> operation \<noteq> ''create'' \<longrightarrow>
            processCommand L commands command s = (Some (Error ''Need to login.''), s))
       \<and> ((activeUser s \<noteq> None \<or> operation = ''login'' \<or> operation = ''create'')
            \<and> commands operation = Some commandFunc \<longrightarrow>
            processCommand L commands command s
              = (Wrap (fst (commandFunc operation args s)) ''Failed to run command'',
                 snd (commandFunc operation args s)))
       \<and> (UserAuth D name (ShaHash L password) (fs s) = (Inr authUser, fs') \<longrightarrow>
            activeUser (snd (login L D ''login'' [name, password] s)) = Some authUser)"
  using assms
  by (auto simp: processCommand_def COMMAND_LOGIN_def COMMAND_CREATE_def login_def invoke_def
      split: prod.splits)

text \<open>
  The statement at the line \<open>rm -r x\<close>, logged out and logged in, and at a login of
  \<open>root\<close>.
\<close>

theorem processCommand_login_gate_witness:
  "processCommand exampleLib [''rm'' \<mapsto> remove exampleLib exampleDriver] ''rm -r x'' (loggedOut 0)
     = (Some (Error ''Need to login.''), loggedOut 0)
   \<and> processCommand exampleLib [''rm'' \<mapsto> remove exampleLib exampleDriver] ''rm -r x''
       exampleSession
     = (None, exampleSession\<lparr>calls := [CallRemoveDir 7 ''x'']\<rparr>)
   \<and> activeUser (snd (login exampleLib exampleDriver ''login'' [''root'', ''pw''] (loggedOut 0)))
     = Some \<lparr>UId = 0, UName = ''root'', UPasswordHash = ''sha256:pw''\<rparr>"
proof -
  have sp: "Split exampleLib ''rm -r x'' = Inr (''rm'' # [''-r'', ''x''])"
    by (simp add: exampleLib_def)
  note gate = processCommand_login_gate [OF sp,
      where commands = "[''rm'' \<mapsto> remove exampleLib exampleDriver]"
        and commandFunc = "remove exampleLib exampleDriver"
        and D = exampleDriver and name = "''root''" and password = "''pw''"
        and authUser = "\<lparr>UId = 0, UName = ''root'', UPasswordHash = ''sha256:pw''\<rparr>"]
  have sha: "ShaHash exampleLib ''pw'' = ''sha256:pw''" by (simp add: exampleLib_def)
  have rm: "remove exampleLib exampleDriver ''rm'' [''-r'', ''x''] exampleSession
      = (None, exampleSession\<lparr>calls := [CallRemoveDir 7 ''x'']\<rparr>)"
    by (simp add: exampleSession_def exampleUser_def exampleDriver_def remove_def invoke_def
        WithStack_def Let_def)
  have "processCommand exampleLib [''rm'' \<mapsto> remove exampleLib exampleDriver] ''rm -r x''
      (loggedOut 0) = (Some (Error ''Need to login.''), loggedOut 0)"
    using gate [of "loggedOut 0" 0] by (simp add: loggedOut_def)
  moreover have "processCommand exampleLib [''rm'' \<mapsto> remove exampleLib exampleDriver]
      ''rm -r x'' exampleSession = (None, exampleSession\<lparr>calls := [CallRemoveDir 7 ''x'']\<rparr>)"
    using gate [of exampleSession 0] by (simp add: rm Wrap_def) (simp add: exampleSession_def)
  moreover have "activeUser (snd (login exampleLib exampleDriver ''login'' [''root'', ''pw'']
      (loggedOut 0))) = Some \<lparr>UId = 0, UName = ''root'', UPasswordHash = ''sha256:pw''\<rparr>"
    using gate [of "loggedOut 0" 0] by (simp add: sha loggedOut_def exampleDriver_def)
  ultimately show ?thesis by simp
qed

subsection \<open>import\<close>

lemma importChildren_append:
  "importChildren imp L p (done @ rest) newId s =
     (case importChildren imp L p done newId s of
        None \<Rightarrow> None
      | Some (Some err, s') \<Rightarrow> Some (Some err, s')
      | Some (None, s') \<Rightarrow> importChildren imp L p rest newId s')"
  by (induction "done" arbitrary: s) (auto split: option.splits prod.splits)

text \<open>
  Claim C7: import without a parent argument imports into the root directory; a regular
  external file is \<open>Put\<close> under its base name with no group permissions; for an external
  directory a directory dirent with the directory's name is made under the given parent
  first, and then every child is imported into that new dirent, up to the first error.

  The five parts in turn: the parent is \<open>ROOT_ID\<close> for one argument and the second
  argument for two; a path that is no directory and opens is one call of \<open>Put\<close> with
  \<open>filepath.Base\<close> of the path, the content, the empty map and the parent; a directory is
  one call of \<open>MakeDir\<close> with the name \<open>os.Stat\<close> gives, the empty map and the parent,
  and on success the loop over the children with the id that \<open>MakeDir\<close> returned; the
  loop, after the children before a child have been imported without error, imports
  that child at \<open>filepath.Join\<close> of the path and its name into the new dirent, and
  returns its error without touching the children after it.
\<close>

theorem import_behaviour:
  "importFile n L D command [localPath] s = recursiveImport n L D localPath (ROOT_ID L) s
   \<and> importFile n L D command [localPath, parentId] s = recursiveImport n L D localPath parentId s
   \<and> (activeUser s = Some u \<and> Stat L p = Inr info \<and> \<not> IsDir info \<and> Open L p = Inr content \<longrightarrow>
        recursiveImport (Suc n) L D p parent s
          = Some (case invoke (CallPut (UId u) (Base L p) content Map.empty parent)
                         (Put D (UId u) (Base L p) content Map.empty parent) s of
                    (err, s') \<Rightarrow> (Wrap err p, s')))
   \<and> (activeUser s = Some u \<and> Stat L p = Inr info \<and> IsDir info \<longrightarrow>
        recursiveImport (Suc n) L D p parent s
          = (case invoke (CallMakeDir (UId u) (Name info) parent Map.empty)
                    (MakeDir D (UId u) (Name info) parent Map.empty) s of
               (Inl err, s') \<Rightarrow> Some (Some (Wrapped err p), s')
             | (Inr newId, s') \<Rightarrow>
                 (case ReadDir L p of
                    Inl err \<Rightarrow> Some (Some (Wrapped err p), s')
                  | Inr children \<Rightarrow>
                      importChildren (recursiveImport n L D) L p children newId s')))
   \<and> (importChildren imp L p before newId s0 = Some (None, s1) \<longrightarrow>
        importChildren imp L p (before @ child # after) newId s0
          = (case imp (Join L p (Name child)) newId s1 of
               None \<Rightarrow> None
             | Some (Some err, s2) \<Rightarrow> Some (Some (Wrapped err p), s2)
             | Some (None, s2) \<Rightarrow> importChildren imp L p after newId s2))"
  by (auto simp: importFile_def WithStack_def importFileInternal_def importChildren_append
      split: option.splits prod.splits sum.splits)

text \<open>
  The import of the directory \<open>photos\<close> with its two files by the user \<open>eve\<close>: one
  \<open>MakeDir\<close> under the root, then a \<open>Put\<close> of each file into the new directory.
\<close>

theorem import_behaviour_witness:
  "importFile 2 exampleLib exampleDriver ''import'' [''photos''] exampleSession
     = Some (None,
         exampleSession
           \<lparr>fs := 1,
            calls := [CallMakeDir 7 ''photos'' ''ROOT'' Map.empty,
                      CallPut 7 ''a.txt'' ''alpha'' Map.empty ''dir0'',
                      CallPut 7 ''b.txt'' ''beta'' Map.empty ''dir0'']\<rparr>)"
proof -
  have lib: "Stat exampleLib ''photos'' = Inr \<lparr>Name = ''photos'', IsDir = True\<rparr>"
    "Stat exampleLib ''photos/a.txt'' = Inr \<lparr>Name = ''a.txt'', IsDir = False\<rparr>"
    "Stat exampleLib ''photos/b.txt'' = Inr \<lparr>Name = ''b.txt'', IsDir = False\<rparr>"
    "Open exampleLib ''photos/a.txt'' = Inr ''alpha''"
    "Open exampleLib ''photos/b.txt'' = Inr ''beta''"
    "ReadDir exampleLib ''photos''
       = Inr [\<lparr>Name = ''a.txt'', IsDir = False\<rparr>, \<lparr>Name = ''b.txt'', IsDir = False\<rparr>]"
    "Base exampleLib ''photos/a.txt'' = ''a.txt''"
    "Base exampleLib ''photos/b.txt'' = ''b.txt''"
    "Join exampleLib ''photos'' ''a.txt'' = ''photos/a.txt''"
    "Join exampleLib ''photos'' ''b.txt'' = ''photos/b.txt''"
    "ROOT_ID exampleLib = ''ROOT''"
    by (simp_all add: exampleLib_def)
  have drv: "MakeDir exampleDriver u name parent perms n = (Inr (''dir'' @ natDigits n), Suc n)"
    "Put exampleDriver u name content perms parent n = (None, n)"
    for u name parent perms n content
    by (simp_all add: exampleDriver_def)
  have two: "(2::nat) = Suc (Suc 0)" by simp
  have walk: "recursiveImport (Suc (Suc 0)) exampleLib exampleDriver ''photos'' ''ROOT'' exampleSession
     = Some (None,
         exampleSession
           \<lparr>fs := 1,
            calls := [CallMakeDir 7 ''photos'' ''ROOT'' Map.empty,
                      CallPut 7 ''a.txt'' ''alpha'' Map.empty ''dir0'',
                      CallPut 7 ''b.txt'' ''beta'' Map.empty ''dir0'']\<rparr>)"
    by (simp add: lib drv importFileInternal_def invoke_def exampleSession_def exampleUser_def
        natDigits.simps WithStack_def Wrap_def)
  have "importFile 2 exampleLib exampleDriver ''import'' [''photos''] exampleSession
      = recursiveImport 2 exampleLib exampleDriver ''photos'' (ROOT_ID exampleLib) exampleSession"
    using import_behaviour [of 2 exampleLib exampleDriver "''import''" "''photos''" exampleSession]
    by (rule conjunct1)
  also have "\<dots> = recursiveImport (Suc (Suc 0)) exampleLib exampleDriver ''photos'' ''ROOT''
      exampleSession"
    by (simp only: lib two)
  finally show ?thesis by (simp only: walk)
qed

subsection \<open>create and login\<close>




section \<open>The local disk: path resolution and MkdirAll\<close>

lemma osStat_root: "osStat d [] = Inr DirNode"
  by (simp add: osStat.simps)

lemma osStat_snoc:
  "osStat d (p @ [c]) =
     (case osStat d p of
        Inl e \<Rightarrow> Inl e
      | Inr (FileNode x) \<Rightarrow> Inl ENOTDIR
      | Inr DirNode \<Rightarrow> (case d (p @ [c]) of None \<Rightarrow> Inl ENOENT | Some n \<Rightarrow> Inr n))"
  by (subst osStat.simps) simp

lemma below_snoc: "below p (q @ [c]) \<longleftrightarrow> p = q \<or> below p q"
  by (auto simp: below_def take_Suc_conv_app_nth nth_append less_Suc_eq_le le_less)

lemma below_Nil: "\<not> below p []"
  by (simp add: below_def)

lemma below_irrefl: "\<not> below p p"
  by (simp add: below_def)

lemma below_trans: "below p q \<Longrightarrow> below q r \<Longrightarrow> below p r"
  by (induction r rule: rev_induct) (auto simp: below_snoc below_Nil)

lemma osStat_parent:
  "osStat d (p @ [c]) = Inr n \<Longrightarrow> osStat d p = Inr DirNode"
  by (auto simp: osStat_snoc split: sum.splits node.splits option.splits)

lemma osStat_above:
  "osStat d q = Inr n \<Longrightarrow> below p q \<Longrightarrow> osStat d p = Inr DirNode"
proof (induction q arbitrary: n rule: rev_induct)
  case Nil
  then show ?case by (simp add: below_Nil)
next
  case (snoc c q)
  from snoc.prems(1) have par: "osStat d q = Inr DirNode" by (rule osStat_parent)
  from snoc.prems(2) have "p = q \<or> below p q" by (simp add: below_snoc)
  then show ?case using par snoc.IH by blast
qed

lemma osStat_agree:
  "(\<And>r. r = q \<or> below r q \<Longrightarrow> d r = d' r) \<Longrightarrow> osStat d q = osStat d' q"
proof (induction q rule: rev_induct)
  case Nil
  show ?case by (simp add: osStat_root)
next
  case (snoc c q)
  have "osStat d q = osStat d' q"
    by (rule snoc.IH) (auto intro: snoc.prems simp: below_snoc)
  moreover have "d (q @ [c]) = d' (q @ [c])" by (rule snoc.prems) simp
  ultimately show ?case by (simp add: osStat_snoc split: sum.splits node.splits)
qed

lemma osStat_Inr_iff:
  "osStat d (p @ [c]) = Inr n \<longleftrightarrow> osStat d p = Inr DirNode \<and> d (p @ [c]) = Some n"
  by (auto simp: osStat_snoc split: sum.splits node.splits option.splits)

lemma osMkdir_result:
  "osMkdir p d = (None, d') \<Longrightarrow>
     p \<noteq> [] \<and> osStat d (butlast p) = Inr DirNode \<and> d p = None
     \<and> d' = (\<lambda>q. if q = p then Some DirNode else if below p q then None else d q)"
  by (auto simp: osMkdir_def split: if_splits sum.splits node.splits option.splits)

lemma osMkdir_fail: "osMkdir p d = (Some e, d') \<Longrightarrow> d' = d"
  by (auto simp: osMkdir_def split: if_splits sum.splits node.splits option.splits)

lemma osMkdir_made:
  assumes "osMkdir p d = (None, d')"
  shows "osStat d' p = Inr DirNode" and "d' (p @ [c]) = None"
proof -
  from osMkdir_result [OF assms] have ne: "p \<noteq> []"
    and par: "osStat d (butlast p) = Inr DirNode"
    and d': "d' = (\<lambda>q. if q = p then Some DirNode else if below p q then None else d q)"
    by simp_all
  from ne obtain q c' where p: "p = q @ [c']" by (cases p rule: rev_cases) auto
  have "osStat d' q = osStat d q"
  proof (rule osStat_agree)
    fix r assume "r = q \<or> below r q"
    then have "below r p" by (auto simp: p below_snoc)
    then have "r \<noteq> p" "\<not> below p r"
      using below_irrefl below_trans by blast+
    then show "d' r = d r" by (simp add: d')
  qed
  with par show "osStat d' p = Inr DirNode" by (simp add: p osStat_snoc d')
  show "d' (p @ [c]) = None" by (simp add: d' below_snoc)
qed

lemma osMkdir_keeps:
  assumes "osMkdir p d = (r, d')" and "osStat d q = Inr n"
  shows "osStat d' q = Inr n"
proof (cases r)
  case (Some e)
  with assms show ?thesis by (auto dest: osMkdir_fail)
next
  case None
  with assms(1) have mk: "osMkdir p d = (None, d')" by simp
  from osMkdir_result [OF mk] have ne: "p \<noteq> []"
    and par: "osStat d (butlast p) = Inr DirNode" and dp: "d p = None"
    and d': "d' = (\<lambda>q. if q = p then Some DirNode else if below p q then None else d q)"
    by simp_all
  from ne obtain p0 c' where p: "p = p0 @ [c']" by (cases p rule: rev_cases) auto
  have nop: "\<And>m. osStat d p \<noteq> Inr m"
    using dp by (simp add: p osStat_Inr_iff)
  have "osStat d' q = osStat d q"
  proof (rule osStat_agree)
    fix x assume x: "x = q \<or> below x q"
    have "x \<noteq> p"
    proof
      assume "x = p"
      with x have "q = p \<or> below p q" by auto
      then show False using assms(2) nop osStat_above [OF assms(2)] by auto
    qed
    moreover have "\<not> below p x"
    proof
      assume "below p x"
      with x have "below p q" using below_trans by blast
      then show False using nop osStat_above [OF assms(2)] by auto
    qed
    ultimately show "d' x = d x" by (simp add: d')
  qed
  with assms(2) show ?thesis by simp
qed

lemma osMkdir_new:
  assumes "osMkdir p d = (r, d')" and "osStat d' q = Inr n"
  shows "osStat d q = Inr n \<or> q = p"
proof (cases r)
  case (Some e)
  with assms show ?thesis by (auto dest: osMkdir_fail)
next
  case None
  with assms(1) have mk: "osMkdir p d = (None, d')" by simp
  from osMkdir_result [OF mk] have
    d': "d' = (\<lambda>q. if q = p then Some DirNode else if below p q then None else d q)"
    by simp
  show ?thesis
  proof (cases "q = p")
    case True
    then show ?thesis by simp
  next
    case False
    have nb: "\<not> below p q"
    proof
      assume b: "below p q"
      then obtain q0 c where q: "q = q0 @ [c]" by (cases q rule: rev_cases) (auto simp: below_Nil)
      from assms(2) have "d' q \<noteq> None" by (simp add: q osStat_Inr_iff)
      with b False show False by (simp add: d')
    qed
    have "osStat d q = osStat d' q"
    proof (rule osStat_agree)
      fix x assume x: "x = q \<or> below x q"
      have "x \<noteq> p"
      proof
        assume "x = p"
        with x False nb show False by auto
      qed
      moreover have "\<not> below p x"
        using x nb below_trans by blast
      ultimately show "d x = d' x" by (simp add: d')
    qed
    with assms(2) show ?thesis by simp
  qed
qed

lemma osMkdirAll_dir: "osStat d p = Inr DirNode \<Longrightarrow> osMkdirAll p d = (None, d)"
  by (subst osMkdirAll.simps) simp

lemma osMkdirAll_cases:
  assumes "osMkdirAll p d = (r, d')"
  obtains
    (there) n where "osStat d p = Inr n" and "d' = d"
      and "r = (case n of DirNode \<Rightarrow> None | FileNode x \<Rightarrow> Some ENOTDIR)"
  | (parent) e err where "osStat d p = Inl e" and "1 < length p"
      and "osMkdirAll (butlast p) d = (Some err, d')" and "r = Some err"
  | (mkdir) e d1 r2 where "osStat d p = Inl e"
      and "if 1 < length p then osMkdirAll (butlast p) d = (None, d1) else d1 = d"
      and "osMkdir p d1 = (r2, d')"
      and "r = (if r2 \<noteq> None \<and> osStat d' p = Inr DirNode then None else r2)"
proof (cases "osStat d p")
  case (Inr n)
  with assms have "d' = d" and "r = (case n of DirNode \<Rightarrow> None | FileNode x \<Rightarrow> Some ENOTDIR)"
    by (subst (asm) osMkdirAll.simps, simp split: node.splits)+
  with Inr show ?thesis by (rule there)
next
  case (Inl e)
  obtain r1 d1 where rec: "(if 1 < length p then osMkdirAll (butlast p) d else (None, d)) = (r1, d1)"
    by (cases "if 1 < length p then osMkdirAll (butlast p) d else (None, d)")
  show ?thesis
  proof (cases r1)
    case (Some err)
    with rec have long: "1 < length p" and par: "osMkdirAll (butlast p) d = (Some err, d1)"
      by (auto split: if_splits)
    from assms Inl rec Some have "r = Some err" "d' = d1"
      by (subst (asm) osMkdirAll.simps, simp)+
    with Inl long par show ?thesis by (auto intro: parent)
  next
    case None
    obtain r2 d2 where mk: "osMkdir p d1 = (r2, d2)" by (cases "osMkdir p d1")
    from assms Inl rec None mk have "d' = d2"
      and "r = (if r2 \<noteq> None \<and> osStat d2 p = Inr DirNode then None else r2)"
      by (subst (asm) osMkdirAll.simps, simp split: option.splits sum.splits node.splits)+
    moreover from rec None
    have "if 1 < length p then osMkdirAll (butlast p) d = (None, d1) else d1 = d"
      by (auto split: if_splits)
    ultimately show ?thesis using Inl mk by (auto intro: mkdir)
  qed
qed

lemma osMkdirAll_keeps:
  "osMkdirAll p d = (r, d') \<Longrightarrow> osStat d q = Inr n \<Longrightarrow> osStat d' q = Inr n"
proof (induction p d arbitrary: r d' rule: osMkdirAll.induct)
  case (1 p d)
  from "1.prems"(1) show ?case
  proof (cases rule: osMkdirAll_cases)
    case (there m)
    with "1.prems" show ?thesis by simp
  next
    case (parent e err)
    then show ?thesis using "1.IH" "1.prems"(2) by blast
  next
    case (mkdir e d1 r2)
    have "osStat d1 q = Inr n"
    proof (cases "1 < length p")
      case True
      with mkdir(2) have "osMkdirAll (butlast p) d = (None, d1)" by simp
      with "1.IH" [OF mkdir(1) True] "1.prems"(2) show ?thesis by blast
    next
      case False
      with mkdir(2) "1.prems"(2) show ?thesis by simp
    qed
    with mkdir(3) show ?thesis by (rule osMkdir_keeps)
  qed
qed

lemma osMkdirAll_made:
  assumes "osMkdirAll p d = (None, d')"
  shows "osStat d' p = Inr DirNode"
  using assms
proof (cases rule: osMkdirAll_cases)
  case (there n)
  then show ?thesis by (cases n) auto
next
  case (parent e err)
  then show ?thesis by simp
next
  case (mkdir e d1 r2)
  then show ?thesis by (cases r2) (auto dest: osMkdir_made(1) split: if_splits)
qed

lemma osMkdirAll_new:
  "osMkdirAll p d = (r, d') \<Longrightarrow> osStat d' q = Inr n \<Longrightarrow>
     osStat d q = Inr n \<or> q = p \<or> below q p"
proof (induction p d arbitrary: r d' rule: osMkdirAll.induct)
  case (1 p d)
  from "1.prems"(1) show ?case
  proof (cases rule: osMkdirAll_cases)
    case (there m)
    with "1.prems" show ?thesis by simp
  next
    case (parent e err)
    from parent(2) obtain p0 c where p: "p = p0 @ [c]" by (cases p rule: rev_cases) auto
    from "1.IH" [OF parent(1,2,3) "1.prems"(2)] show ?thesis
      by (auto simp: p below_snoc)
  next
    case (mkdir e d1 r2)
    from osMkdir_new [OF mkdir(3) "1.prems"(2)] have "osStat d1 q = Inr n \<or> q = p" .
    then show ?thesis
    proof
      assume q1: "osStat d1 q = Inr n"
      show ?thesis
      proof (cases "1 < length p")
        case True
        then obtain p0 c where p: "p = p0 @ [c]" by (cases p rule: rev_cases) auto
        from True mkdir(2) have "osMkdirAll (butlast p) d = (None, d1)" by simp
        from "1.IH" [OF mkdir(1) True this q1] show ?thesis
          by (auto simp: p below_snoc)
      next
        case False
        with mkdir(2) q1 show ?thesis by simp
      qed
    qed simp
  qed
qed

lemma osMkdirAll_empty:
  assumes "osMkdirAll p d = (None, d')" and "osStat d (p @ [c]) = Inl e"
  shows "osStat d' (p @ [c]) = Inl ENOENT" and "d' (p @ [c]) = None"
proof -
  have dir: "osStat d' p = Inr DirNode" using assms(1) by (rule osMkdirAll_made)
  have "\<And>n. osStat d' (p @ [c]) \<noteq> Inr n"
  proof
    fix n assume "osStat d' (p @ [c]) = Inr n"
    from osMkdirAll_new [OF assms(1) this] assms(2) show False
      by (auto simp: below_def)
  qed
  with dir show "d' (p @ [c]) = None" by (cases "d' (p @ [c])") (auto simp: osStat_Inr_iff)
  with dir show "osStat d' (p @ [c]) = Inl ENOENT" by (simp add: osStat_snoc)
qed

lemmas disk_eval = osMkdirAll.simps osStat.simps osMkdir_def below_def

section \<open>What the local connector does\<close>

subsection \<open>PrepareStorage\<close>

lemma mkdirEach_keeps:
  "mkdirEach ps d = (r, d') \<Longrightarrow> osStat d q = Inr n \<Longrightarrow> osStat d' q = Inr n"
proof (induction ps arbitrary: d)
  case Nil
  then show ?case by simp
next
  case (Cons p ps)
  obtain r1 d1 where one: "osMkdirAll p d = (r1, d1)" by (cases "osMkdirAll p d")
  have k: "osStat d1 q = Inr n" using one Cons.prems(2) by (rule osMkdirAll_keeps)
  show ?case
  proof (cases r1)
    case None
    with Cons.prems(1) one have "mkdirEach ps d1 = (r, d')" by simp
    then show ?thesis using k by (rule Cons.IH)
  next
    case (Some e)
    with Cons.prems(1) one k show ?thesis by simp
  qed
qed

lemma mkdirEach_made:
  "mkdirEach ps d = (None, d') \<Longrightarrow> p \<in> set ps \<Longrightarrow> osStat d' p = Inr DirNode"
proof (induction ps arbitrary: d)
  case Nil
  then show ?case by simp
next
  case (Cons a ps)
  obtain r1 d1 where one: "osMkdirAll a d = (r1, d1)" by (cases "osMkdirAll a d")
  with Cons.prems(1) have r1: "r1 = None" and rest: "mkdirEach ps d1 = (None, d')"
    by (auto split: option.splits)
  from Cons.prems(2) have "p = a \<or> p \<in> set ps" by simp
  then show ?case
  proof
    assume "p = a"
    with one r1 have "osStat d1 p = Inr DirNode" by (simp add: osMkdirAll_made)
    with rest show ?thesis by (rule mkdirEach_keeps)
  next
    assume "p \<in> set ps"
    with rest show ?thesis by (rule Cons.IH)
  qed
qed

lemma mkdirEach_again:
  "(\<And>p. p \<in> set ps \<Longrightarrow> osStat d p = Inr DirNode) \<Longrightarrow> mkdirEach ps d = (None, d)"
  by (induction ps) (simp_all add: osMkdirAll_dir)

text \<open>
  Claim C8: \<open>PrepareStorage\<close> is idempotent: on every backend state on which one call
  succeeds, a second call succeeds too and leaves the backend with the same directories
  (the admin directory, the data directory, and one data subdirectory for each possible
  one-character prefix of a dirent id).

  After a call that succeeded, a second call succeeds and returns the state it was
  given, and in that state the path of the connector, \<open>admin\<close>, \<open>data\<close> and \<open>data/c\<close> for
  every character \<open>c\<close> of \<open>RANDOM_CHARS\<close> are directories.
\<close>

theorem PrepareStorage_idempotent:
  assumes "PrepareStorage RANDOM_CHARS this w = (None, w')"
  shows "PrepareStorage RANDOM_CHARS this w' = (None, w')
       \<and> osStat (disk w') (path this) = Inr DirNode
       \<and> osStat (disk w') (path this @ [''admin'']) = Inr DirNode
       \<and> osStat (disk w') (path this @ [''data'']) = Inr DirNode
       \<and> (\<forall>prefix \<in> set RANDOM_CHARS.
             osStat (disk w') (path this @ [''data'', [prefix]]) = Inr DirNode)"
proof -
  obtain r d' where each: "mkdirEach (storageDirs RANDOM_CHARS this) (disk w) = (r, d')"
    by (cases "mkdirEach (storageDirs RANDOM_CHARS this) (disk w)")
  with assms have r: "r = None" and w': "w' = w\<lparr>disk := d'\<rparr>"
    by (auto simp: PrepareStorage_def WithStack_def DATA_GROUP_PREFIX_LEN_def)
  have made: "\<And>p. p \<in> set (storageDirs RANDOM_CHARS this) \<Longrightarrow> osStat d' p = Inr DirNode"
    using each r by (auto intro: mkdirEach_made)
  then have "mkdirEach (storageDirs RANDOM_CHARS this) d' = (None, d')"
    by (rule mkdirEach_again)
  then have "PrepareStorage RANDOM_CHARS this w' = (None, w')"
    by (simp add: PrepareStorage_def WithStack_def DATA_GROUP_PREFIX_LEN_def w')
  moreover have "osStat (disk w') (path this) = Inr DirNode"
    "osStat (disk w') (path this @ [''admin'']) = Inr DirNode"
    "osStat (disk w') (path this @ [''data'']) = Inr DirNode"
    by (simp_all add: w' made storageDirs_def FS_SYS_DIR_ADMIN_def FS_SYS_DIR_DATA_def)
  moreover have "\<forall>prefix \<in> set RANDOM_CHARS.
      osStat (disk w') (path this @ [''data'', [prefix]]) = Inr DirNode"
    by (auto simp: w' storageDirs_def FS_SYS_DIR_DATA_def intro!: made)
  ultimately show ?thesis by simp
qed

text \<open>
  The statement on an empty disk, for the characters \<open>a\<close> and \<open>b\<close>.
\<close>

theorem PrepareStorage_idempotent_witness:
  "fst (PrepareStorage ''ab'' \<lparr>path = [''fs'']\<rparr> exampleWorld) = None
   \<and> PrepareStorage ''ab'' \<lparr>path = [''fs'']\<rparr>
        (snd (PrepareStorage ''ab'' \<lparr>path = [''fs'']\<rparr> exampleWorld))
      = (None, snd (PrepareStorage ''ab'' \<lparr>path = [''fs'']\<rparr> exampleWorld))
   \<and> osStat (disk (snd (PrepareStorage ''ab'' \<lparr>path = [''fs'']\<rparr> exampleWorld)))
        [''fs'', ''data'', ''b''] = Inr DirNode"
proof -
  have ok: "fst (PrepareStorage ''ab'' \<lparr>path = [''fs'']\<rparr> exampleWorld) = None"
    by (simp add: PrepareStorage_def exampleWorld_def DATA_GROUP_PREFIX_LEN_def WithStack_def
        storageDirs_def FS_SYS_DIR_ADMIN_def FS_SYS_DIR_DATA_def disk_eval split: prod.splits)
  then have first: "PrepareStorage ''ab'' \<lparr>path = [''fs'']\<rparr> exampleWorld
      = (None, snd (PrepareStorage ''ab'' \<lparr>path = [''fs'']\<rparr> exampleWorld))"
    by (simp add: prod_eq_iff)
  show ?thesis
    using ok PrepareStorage_idempotent [OF first] by simp
qed

subsection \<open>The table of active connections\<close>

text \<open>
  \<open>NewLocalConnector\<close> reads \<open>activeConnections\<close> and never writes it; \<open>Close\<close> is the one
  function that puts a path into it.
\<close>

lemma writeLock_registry:
  "activeConnections (snd (writeLock c w)) = activeConnections w"
  by (simp add: writeLock_def Let_def split: prod.splits)

lemma lock_registry:
  "activeConnections (snd (lock c force w)) = activeConnections w"
  by (simp add: lock_def Let_def writeLock_registry split: sum.splits)

lemma NewLocalConnector_registry:
  "activeConnections (snd (NewLocalConnector Abs p force w)) = activeConnections w"
proof (cases "Abs p")
  case (Inl e)
  then show ?thesis by (simp add: NewLocalConnector_def)
next
  case (Inr ap)
  show ?thesis
  proof (cases "activeConnections w ap")
    case (Some ok)
    with Inr show ?thesis by (simp add: NewLocalConnector_def)
  next
    case None
    define w1 where "w1 = w\<lparr>disk := snd (osMkdirAll (ap @ [FS_SYS_DIR_ADMIN]) (disk w))\<rparr>"
    have "activeConnections (snd (lock \<lparr>path = ap\<rparr> force w1)) = activeConnections w"
      by (simp add: lock_registry w1_def)
    with Inr None show ?thesis
      by (cases "lock \<lparr>path = ap\<rparr> force w1")
        (auto simp: NewLocalConnector_def Let_def w1_def split: option.splits)
  qed
qed

lemma PrepareStorage_registry:
  "activeConnections (snd (PrepareStorage chars c w)) = activeConnections w"
  by (simp add: PrepareStorage_def split: prod.splits)

lemma Close_registry:
  "activeConnections (snd (Close c w)) = (activeConnections w)(path c \<mapsto> False)"
  by (simp add: Close_def unlock_def Let_def split: prod.splits)

lemma happen_registry:
  "activeConnections w ap \<noteq> None \<Longrightarrow> activeConnections (happen Abs chars e w) ap \<noteq> None"
  by (cases e) (auto simp: NewLocalConnector_registry PrepareStorage_registry Close_registry)

lemma run_registry:
  "activeConnections w ap \<noteq> None \<Longrightarrow> activeConnections (run Abs chars es w) ap \<noteq> None"
proof (induction es arbitrary: w)
  case Nil
  then show ?case by simp
next
  case (Cons e es)
  from Cons.prems have "activeConnections (happen Abs chars e w) ap \<noteq> None"
    by (rule happen_registry)
  then show ?case by (simp add: Cons.IH)
qed

lemmas eval_defs = NewLocalConnector_def exampleAbs_def exampleWorld_def lock_def writeLock_def
      getLockPath_def FS_SYS_DIR_ADMIN_def LOCK_FILENAME_def osOpen_def IsNotExist_def
      WriteFile_def osMkdirAll.simps osStat.simps osMkdir_def below_def Wrap_def PathErrorOpt_def
      Let_def ReadAll_def Close_def unlock_def osRemove_def WithStack_def

text \<open>
  Claim C2: while one local connector to a path exists and is not closed, every second
  attempt to create a local connector to the same path fails, also with force = true: the
  table of active connections keeps two connectors to one backend from existing at once.

  On the code the second attempt succeeds.  In a process with an empty table, on an empty
  disk: the first \<open>NewLocalConnector\<close> of \<open>/fs\<close> returns a connector, and with it still open
  a second \<open>NewLocalConnector\<close> of \<open>/fs\<close> with force = true returns a connector to the same
  path.  The table is empty at the second call, since only \<open>Close\<close> adds to it, and force
  overrides the lock file.  The comment on the table says it is there so that two
  instances do not connect to the same storage.
\<close>

theorem two_connectors_to_one_storage:
  "fst (NewLocalConnector exampleAbs ''/fs'' False exampleWorld) = Inr \<lparr>path = [''fs'']\<rparr>
   \<and> fst (NewLocalConnector exampleAbs ''/fs'' True
            (snd (NewLocalConnector exampleAbs ''/fs'' False exampleWorld)))
       = Inr \<lparr>path = [''fs'']\<rparr>"
  by (simp add: eval_defs)

text \<open>
  Claim C10: after \<open>Close\<close> on a local connector, every later attempt in the same process
  to create a local connector to the same path fails, because \<open>Close\<close> puts the path into
  the table of active connections (with the value false) and \<open>NewLocalConnector\<close> rejects
  every path that is in the table, whatever its value.

  After \<open>Close\<close> of a connector, and after any further events (connectors made and
  closed, storage prepared, the disk changed by anyone), \<open>NewLocalConnector\<close> for a path
  that \<open>filepath.Abs\<close> resolves to the connector's path returns the error \<open>Cannot create
  two connections to the same storage\<close> and changes nothing, with or without force.
\<close>

theorem closed_path_rejected:
  assumes "Abs p = Inr (path c)"
  shows "NewLocalConnector Abs p force (run Abs chars events (snd (Close c w)))
       = (Inl (Error (''Cannot create two connections to the same storage: ''
                      @ pathString (path c))),
          run Abs chars events (snd (Close c w)))"
proof -
  have "activeConnections (snd (Close c w)) (path c) \<noteq> None"
    by (simp add: Close_registry)
  then have "activeConnections (run Abs chars events (snd (Close c w))) (path c) \<noteq> None"
    by (rule run_registry)
  with assms show ?thesis
    by (auto simp: NewLocalConnector_def)
qed

text \<open>
  The statement for the path \<open>/fs\<close>: closed, then prepared and asked for once more
  with force, it is still rejected.
\<close>

theorem closed_path_rejected_witness:
  "exampleAbs ''/fs'' = Inr (path \<lparr>path = [''fs'']\<rparr>)
   \<and> fst (NewLocalConnector exampleAbs ''/fs'' True
        (run exampleAbs ''ab'' [DoPrepare \<lparr>path = [''fs'']\<rparr>, DoNew ''fs'' True]
           (snd (Close \<lparr>path = [''fs'']\<rparr> exampleWorld))))
     = Inl (Error ''Cannot create two connections to the same storage: /fs'')"
proof -
  have a: "exampleAbs ''/fs'' = Inr (path \<lparr>path = [''fs'']\<rparr>)"
    by (simp add: exampleAbs_def)
  show ?thesis
    using a closed_path_rejected [where Abs = exampleAbs and p = "''/fs''"
        and c = "\<lparr>path = [''fs'']\<rparr>" and force = True and chars = "''ab''"
        and events = "[DoPrepare \<lparr>path = [''fs'']\<rparr>, DoNew ''fs'' True]"
        and w = exampleWorld]
    by (simp add: pathString_def)
qed

subsection \<open>The lock file\<close>

lemma lockPath_snoc: "ap @ [''admin'', ''lock''] = (ap @ [''admin'']) @ [''lock'']"
  by simp

lemma lock_owned:
  assumes "osStat (disk w) (path c @ [''admin'', ''lock'']) = Inr (FileNode owner)"
  shows "lock c False w = (Some (alreadyOwned (path c) owner), w)"
  using assms
  by (simp add: lock_def getLockPath_def FS_SYS_DIR_ADMIN_def LOCK_FILENAME_def osOpen_def
      ReadAll_def)

lemma writeLock_ok:
  assumes "osStat (disk w) (path c @ [''admin'']) = Inr DirNode"
    and "disk w (path c @ [''admin'', ''lock'']) \<noteq> Some DirNode"
  shows "writeLock c w
       = (None, w\<lparr>disk := (disk w)(path c @ [''admin'', ''lock''] \<mapsto>
                                 FileNode (Sprintf_d (int (pid w))))\<rparr>)"
proof (cases "disk w (path c @ [''admin'', ''lock''])")
  case None
  with assms(1) show ?thesis
    by (simp add: writeLock_def getLockPath_def FS_SYS_DIR_ADMIN_def LOCK_FILENAME_def
        WriteFile_def butlast_append Wrap_def PathErrorOpt_def Let_def)
next
  case (Some n)
  with assms(2) obtain x where "n = FileNode x" by (cases n) auto
  with Some assms(1) show ?thesis
    by (simp add: writeLock_def getLockPath_def FS_SYS_DIR_ADMIN_def LOCK_FILENAME_def
        WriteFile_def butlast_append Wrap_def PathErrorOpt_def Let_def)
qed

text \<open>
  What \<open>NewLocalConnector\<close> does with the lock file for a path that is not in the table
  of active connections: when the lock file is a file and force = false, the call fails
  with the message that names the content of the lock and changes nothing; when the admin
  directory is there or can be made, and the lock file is absent, or is a file and
  force = true, the call returns the connector and the lock file holds the process id
  in decimal.
\<close>

theorem NewLocalConnector_lock:
  assumes "Abs p = Inr ap" and "activeConnections w ap = None"
  shows "(osStat (disk w) (ap @ [''admin'', ''lock'']) = Inr (FileNode owner) \<and> \<not> force \<longrightarrow>
            NewLocalConnector Abs p force w
              = (Inl (Wrapped (alreadyOwned ap owner) (pathString ap)), w))
       \<and> (fst (osMkdirAll (ap @ [''admin'']) (disk w)) = None
          \<and> ((\<exists>e. osStat (disk w) (ap @ [''admin'', ''lock'']) = Inl e)
             \<or> (force \<and> (\<exists>x. osStat (disk w) (ap @ [''admin'', ''lock'']) = Inr (FileNode x))))
          \<longrightarrow>
            NewLocalConnector Abs p force w
              = (Inr \<lparr>path = ap\<rparr>,
                 w\<lparr>disk := (snd (osMkdirAll (ap @ [''admin'']) (disk w)))
                     (ap @ [''admin'', ''lock''] \<mapsto> FileNode (Sprintf_d (int (pid w))))\<rparr>))"
proof (intro conjI impI)
  assume a: "osStat (disk w) (ap @ [''admin'', ''lock'']) = Inr (FileNode owner) \<and> \<not> force"
  then have "osStat (disk w) (ap @ [''admin'']) = Inr DirNode"
    unfolding lockPath_snoc by (blast dest: osStat_parent)
  then have same: "osMkdirAll (ap @ [''admin'']) (disk w) = (None, disk w)"
    by (rule osMkdirAll_dir)
  from a have "lock \<lparr>path = ap\<rparr> False w = (Some (alreadyOwned ap owner), w)"
    using lock_owned [of w "\<lparr>path = ap\<rparr>" owner] by simp
  with a assms same show "NewLocalConnector Abs p force w
      = (Inl (Wrapped (alreadyOwned ap owner) (pathString ap)), w)"
    by (simp add: NewLocalConnector_def FS_SYS_DIR_ADMIN_def)
next
  assume b: "fst (osMkdirAll (ap @ [''admin'']) (disk w)) = None
     \<and> ((\<exists>e. osStat (disk w) (ap @ [''admin'', ''lock'']) = Inl e)
        \<or> (force \<and> (\<exists>x. osStat (disk w) (ap @ [''admin'', ''lock'']) = Inr (FileNode x))))"
  define d1 where "d1 = snd (osMkdirAll (ap @ [''admin'']) (disk w))"
  define w1 where "w1 = w\<lparr>disk := d1\<rparr>"
  from b have all: "osMkdirAll (ap @ [''admin'']) (disk w) = (None, d1)"
    by (simp add: d1_def prod_eq_iff)
  then have dir: "osStat d1 (ap @ [''admin'']) = Inr DirNode" by (rule osMkdirAll_made)
  from b have "lock \<lparr>path = ap\<rparr> force w1
      = (None, w1\<lparr>disk := d1(ap @ [''admin'', ''lock''] \<mapsto> FileNode (Sprintf_d (int (pid w))))\<rparr>)"
  proof (elim conjE disjE exE)
    fix e assume "osStat (disk w) (ap @ [''admin'', ''lock'']) = Inl e"
    then have absent: "osStat d1 (ap @ [''admin'', ''lock'']) = Inl ENOENT"
      and none: "d1 (ap @ [''admin'', ''lock'']) = None"
      using osMkdirAll_empty [OF all, of "''lock''" e] by simp_all
    have "writeLock \<lparr>path = ap\<rparr> w1
       = (None, w1\<lparr>disk := (disk w1)(ap @ [''admin'', ''lock''] \<mapsto>
                                 FileNode (Sprintf_d (int (pid w1))))\<rparr>)"
      using writeLock_ok [of w1 "\<lparr>path = ap\<rparr>"] dir none by (simp add: w1_def)
    with absent show ?thesis
      by (simp add: lock_def getLockPath_def FS_SYS_DIR_ADMIN_def LOCK_FILENAME_def osOpen_def
          IsNotExist_def w1_def)
  next
    fix x assume f: force and x: "osStat (disk w) (ap @ [''admin'', ''lock'']) = Inr (FileNode x)"
    from all x have x1: "osStat d1 (ap @ [''admin'', ''lock'']) = Inr (FileNode x)"
      by (rule osMkdirAll_keeps)
    then have "d1 (ap @ [''admin'', ''lock'']) = Some (FileNode x)"
      using osStat_Inr_iff [of d1 "ap @ [''admin'']" "''lock''" "FileNode x"] by simp
    then have "writeLock \<lparr>path = ap\<rparr> w1
       = (None, w1\<lparr>disk := (disk w1)(ap @ [''admin'', ''lock''] \<mapsto>
                                 FileNode (Sprintf_d (int (pid w1))))\<rparr>)"
      using writeLock_ok [of w1 "\<lparr>path = ap\<rparr>"] dir by (simp add: w1_def)
    with x1 f show ?thesis
      by (simp add: lock_def getLockPath_def FS_SYS_DIR_ADMIN_def LOCK_FILENAME_def osOpen_def
          w1_def)
  qed
  with assms show "NewLocalConnector Abs p force w
      = (Inr \<lparr>path = ap\<rparr>,
         w\<lparr>disk := (snd (osMkdirAll (ap @ [''admin'']) (disk w)))
             (ap @ [''admin'', ''lock''] \<mapsto> FileNode (Sprintf_d (int (pid w))))\<rparr>)"
    by (simp add: NewLocalConnector_def FS_SYS_DIR_ADMIN_def w1_def d1_def)
qed

text \<open>
  The statement on an empty disk for the process 4242: the first call makes the
  connector and writes \<open>4242\<close> into the lock; a second call without force reports that
  owner.
\<close>

theorem NewLocalConnector_lock_witness:
  "fst (NewLocalConnector exampleAbs ''/fs'' False exampleWorld) = Inr \<lparr>path = [''fs'']\<rparr>
   \<and> disk (snd (NewLocalConnector exampleAbs ''/fs'' False exampleWorld))
        [''fs'', ''admin'', ''lock''] = Some (FileNode ''4242'')
   \<and> fst (NewLocalConnector exampleAbs ''/fs'' False
        (snd (NewLocalConnector exampleAbs ''/fs'' False exampleWorld)))
      = Inl (Wrapped (alreadyOwned [''fs''] ''4242'') ''/fs'')"
proof -
  define w1 where "w1 = snd (NewLocalConnector exampleAbs ''/fs'' False exampleWorld)"
  have a: "exampleAbs ''/fs'' = Inr [''fs'']" by (simp add: exampleAbs_def)
  have r: "activeConnections exampleWorld [''fs''] = None" by (simp add: exampleWorld_def)
  have mk: "fst (osMkdirAll ([''fs''] @ [''admin'']) (disk exampleWorld)) = None"
    by (simp add: exampleWorld_def disk_eval)
  have absent: "osStat (disk exampleWorld) ([''fs''] @ [''admin'', ''lock'']) = Inl ENOENT"
    by (simp add: exampleWorld_def osStat.simps)
  have pid: "Sprintf_d (int (pid exampleWorld)) = ''4242''"
    by (simp add: exampleWorld_def Sprintf_d_def natDigits.simps)
  have first: "NewLocalConnector exampleAbs ''/fs'' False exampleWorld
      = (Inr \<lparr>path = [''fs'']\<rparr>,
         exampleWorld\<lparr>disk := (snd (osMkdirAll ([''fs''] @ [''admin'']) (disk exampleWorld)))
             ([''fs''] @ [''admin'', ''lock''] \<mapsto> FileNode (Sprintf_d (int (pid exampleWorld))))\<rparr>)"
    using NewLocalConnector_lock [where Abs = exampleAbs and p = "''/fs''" and ap = "[''fs'']"
        and w = exampleWorld and force = False] a r mk absent by blast
  have w1: "w1 = exampleWorld\<lparr>disk := (snd (osMkdirAll [''fs'', ''admin''] (disk exampleWorld)))
             ([''fs'', ''admin'', ''lock''] \<mapsto> FileNode ''4242'')\<rparr>"
    by (simp add: w1_def first pid)
  have r1: "activeConnections w1 [''fs''] = None" by (simp add: w1 exampleWorld_def)
  have owned: "osStat (disk w1) ([''fs''] @ [''admin'', ''lock'']) = Inr (FileNode ''4242'')"
    by (simp add: w1 exampleWorld_def disk_eval)
  have second: "NewLocalConnector exampleAbs ''/fs'' False w1
      = (Inl (Wrapped (alreadyOwned [''fs''] ''4242'') (pathString [''fs''])), w1)"
    using NewLocalConnector_lock [where Abs = exampleAbs and p = "''/fs''" and ap = "[''fs'']"
        and w = w1 and force = False and owner = "''4242''"] a r1 owned by blast
  show ?thesis
    using first second by (simp add: w1_def [symmetric] pid pathString_def) (simp add: w1)
qed

text \<open>
  Claim C5: creating a local connector fails when the lock file already exists on the
  backend and force = false, and reports the process id recorded in the lock; when the
  lock file is absent or force = true, it writes the current process id into the lock
  file and succeeds.

  On the code the second half fails for a path that was closed before in the same
  process.  A connector to \<open>/fs\<close> is made and closed: the admin directory is there, the
  lock file is absent, and yet a new connector to \<open>/fs\<close> is refused, because \<open>Close\<close> has
  put the path into the table of active connections and \<open>NewLocalConnector\<close> looks the path
  up there before it comes to the lock.  The comment on \<open>NewLocalConnector\<close> says that one
  connection at a time is allowed, and a closed connection is none.
\<close>

theorem reopen_after_close:
  "osStat (disk (snd (Close \<lparr>path = [''fs'']\<rparr>
       (snd (NewLocalConnector exampleAbs ''/fs'' False exampleWorld))))) [''fs'', ''admin'']
     = Inr DirNode
   \<and> osStat (disk (snd (Close \<lparr>path = [''fs'']\<rparr>
       (snd (NewLocalConnector exampleAbs ''/fs'' False exampleWorld))))) [''fs'', ''admin'', ''lock'']
     = Inl ENOENT
   \<and> fst (NewLocalConnector exampleAbs ''/fs'' False
         (snd (Close \<lparr>path = [''fs'']\<rparr>
           (snd (NewLocalConnector exampleAbs ''/fs'' False exampleWorld)))))
     = Inl (Error ''Cannot create two connections to the same storage: /fs'')"
  by (simp add: eval_defs pathString_def)

end
